theory Spec2Isabelle
  imports Main "HOL-Library.Word"
begin

unbundle bit_operations_syntax

section \<open>dfwatcher: a shallow embedding of \<^verbatim>\<open>src/dfwatcher/main.go\<close>\<close>

text \<open>
  Go strings are byte sequences; they are modelled as \<^typ>\<open>string\<close> (a list of 8-bit
  characters), so \<^term>\<open>length\<close> is Go's \<^verbatim>\<open>len\<close> and \<^term>\<open>drop\<close> is a byte slice
  \<^verbatim>\<open>s[n:]\<close>. Go's \<^verbatim>\<open>int\<close> is 64 bits wide; the only counter of the program
  (\<^verbatim>\<open>lineNum\<close>) starts at 1 and grows by at most one per diff line, so it is a
  \<^typ>\<open>nat\<close>. Window sizes are \<^typ>\<open>int\<close>.
\<close>

subsection \<open>The functions of Go's \<^verbatim>\<open>strings\<close> and \<^verbatim>\<open>fmt\<close> packages that the program calls\<close>

abbreviation nl :: char where
  "nl \<equiv> CHR 0x0A"

definition hasPrefix :: "string \<Rightarrow> string \<Rightarrow> bool" where
  \<comment> \<open>\<^verbatim>\<open>strings.HasPrefix(s, p)\<close>\<close>
  "hasPrefix s p = (take (length p) s = p)"

definition trimPrefix :: "string \<Rightarrow> string \<Rightarrow> string" where
  \<comment> \<open>\<^verbatim>\<open>strings.TrimPrefix(s, p)\<close>\<close>
  "trimPrefix s p = (if hasPrefix s p then drop (length p) s else s)"

fun splitOn :: "char \<Rightarrow> string \<Rightarrow> string list" where
  \<comment> \<open>\<^verbatim>\<open>strings.Split(s, sep)\<close> for a separator of one byte: one more piece than there
      are separators, so the empty string splits into one empty piece\<close>
  "splitOn c [] = [[]]"
| "splitOn c (b # bs) =
     (if b = c then [] # splitOn c bs
      else (case splitOn c bs of [] \<Rightarrow> [[b]] | piece # pieces \<Rightarrow> (b # piece) # pieces))"

definition asciiSpace :: "char \<Rightarrow> bool" where
  "asciiSpace c =
     (c = CHR 0x09 \<or> c = CHR 0x0A \<or> c = CHR 0x0B \<or> c = CHR 0x0C \<or> c = CHR 0x0D \<or> c = CHR 0x20)"

definition unicodeSpaces :: "string list" where
  \<comment> \<open>the UTF-8 encodings of the space characters beyond ASCII that \<^verbatim>\<open>unicode.IsSpace\<close>
      accepts: U+0085, U+00A0, U+1680, U+2000 to U+200A, U+2028, U+2029, U+202F, U+205F,
      U+3000\<close>
  "unicodeSpaces =
     [[CHR 0xC2, CHR 0x85], [CHR 0xC2, CHR 0xA0], [CHR 0xE1, CHR 0x9A, CHR 0x80],
      [CHR 0xE2, CHR 0x80, CHR 0x80], [CHR 0xE2, CHR 0x80, CHR 0x81],
      [CHR 0xE2, CHR 0x80, CHR 0x82], [CHR 0xE2, CHR 0x80, CHR 0x83],
      [CHR 0xE2, CHR 0x80, CHR 0x84], [CHR 0xE2, CHR 0x80, CHR 0x85],
      [CHR 0xE2, CHR 0x80, CHR 0x86], [CHR 0xE2, CHR 0x80, CHR 0x87],
      [CHR 0xE2, CHR 0x80, CHR 0x88], [CHR 0xE2, CHR 0x80, CHR 0x89],
      [CHR 0xE2, CHR 0x80, CHR 0x8A], [CHR 0xE2, CHR 0x80, CHR 0xA8],
      [CHR 0xE2, CHR 0x80, CHR 0xA9], [CHR 0xE2, CHR 0x80, CHR 0xAF],
      [CHR 0xE2, CHR 0x81, CHR 0x9F], [CHR 0xE3, CHR 0x80, CHR 0x80]]"

definition leadingSpace :: "string \<Rightarrow> nat" where
  \<comment> \<open>the number of bytes of the space character \<open>s\<close> starts with, 0 when it starts
      with none\<close>
  "leadingSpace s =
     (case s of
        [] \<Rightarrow> 0
      | c # _ \<Rightarrow>
          if asciiSpace c then 1
          else (case find (hasPrefix s) unicodeSpaces of None \<Rightarrow> 0 | Some u \<Rightarrow> length u))"

function trimLeft :: "string \<Rightarrow> string" where
  "trimLeft s = (if leadingSpace s = 0 then s else trimLeft (drop (leadingSpace s) s))"
  by pat_completeness auto
termination
  by (relation "measure length") (auto simp: leadingSpace_def split: list.splits)

declare trimLeft.simps [simp del]

definition trailingSpace :: "string \<Rightarrow> nat" where
  \<comment> \<open>the number of bytes of the space character \<open>s\<close> ends with, 0 when it ends with
      none\<close>
  "trailingSpace s =
     (case rev s of
        [] \<Rightarrow> 0
      | c # _ \<Rightarrow>
          if asciiSpace c then 1
          else (case find (\<lambda>u. hasPrefix (rev s) (rev u)) unicodeSpaces of
                  None \<Rightarrow> 0
                | Some u \<Rightarrow> length u))"

function trimRight :: "string \<Rightarrow> string" where
  "trimRight s =
     (if trailingSpace s = 0 then s else trimRight (take (length s - trailingSpace s) s))"
  by pat_completeness auto
termination
  by (relation "measure length") (auto simp: trailingSpace_def split: list.splits)

declare trimRight.simps [simp del]

definition trimSpace :: "string \<Rightarrow> string" where
  \<comment> \<open>\<^verbatim>\<open>strings.TrimSpace(s)\<close>: the leading space characters go, then the trailing ones\<close>
  "trimSpace s = trimRight (trimLeft s)"

definition digit :: "nat \<Rightarrow> char" where
  "digit d = ''0123456789'' ! d"

function showNat :: "nat \<Rightarrow> string" where
  \<comment> \<open>\<^verbatim>\<open>fmt.Sprintf("%d", n)\<close> for \<open>n \<ge> 0\<close>\<close>
  "showNat n = (if n < 10 then [digit n] else showNat (n div 10) @ [digit (n mod 10)])"
  by pat_completeness auto
termination
  by (relation "measure id") auto

declare showNat.simps [simp del]

definition padRight :: "nat \<Rightarrow> string \<Rightarrow> string" where
  \<comment> \<open>\<^verbatim>\<open>fmt.Sprintf("%-4s", s)\<close> is \<open>padRight 4 s\<close>: spaces are added on the right up to
      the width; a longer \<open>s\<close> is left as it is\<close>
  "padRight w s = s @ replicate (w - length s) CHR '' ''"

subsection \<open>The diff view (\<^verbatim>\<open>updateDiffView\<close>, lines 328 to 367)\<close>

text \<open>
  The styles are values of the external library lipgloss, and \<^verbatim>\<open>Style.Render\<close> wraps a
  string in terminal escape codes that depend on the terminal. \<^verbatim>\<open>syntaxHighlight\<close>
  (lines 208 to 252) walks over the UTF-8 runes of a line and wraps pieces of it with
  \<^verbatim>\<open>Render\<close>. Both are left uninterpreted: a \<open>renderer\<close> carries them, and every
  theorem below holds for whatever string functions they are. Nothing in the diff view
  looks into the strings they return.
\<close>

datatype style = DiffHeaderStyle | AddedLineStyle | RemovedLineStyle | LineNumberStyle

record renderer =
  render :: "style \<Rightarrow> string \<Rightarrow> string"
  syntaxHighlight :: "string \<Rightarrow> string"

text \<open>
  The loop of \<^verbatim>\<open>updateDiffView\<close> has six branches. Each iteration is recorded as an
  annotated line: the branch taken, the line number printed in front of the line (only
  the last branch prints one) and the text appended to the view. \<open>DiffGitHeader\<close> is the
  first branch (a line starting \<^verbatim>\<open>diff --git\<close>), \<open>FileHeader\<close> the second (a line starting
  \<^verbatim>\<open>---\<close> or \<^verbatim>\<open>+++\<close>).
\<close>

datatype lineKind = DiffGitHeader | FileHeader | HunkHeader | Added | Removed | Context

record annotatedLine =
  kind :: lineKind
  lineNumber :: "nat option"
  displayText :: string

definition annotateLine :: "renderer \<Rightarrow> nat \<Rightarrow> string \<Rightarrow> annotatedLine \<times> nat" where
  \<comment> \<open>the body of the loop (lines 343 to 363): the annotated line and the value of
      \<^verbatim>\<open>lineNum\<close> after it\<close>
  "annotateLine r lineNum line =
     (if hasPrefix line ''diff --git'' then
        (\<lparr>kind = DiffGitHeader, lineNumber = None, displayText = [nl] @ line @ [nl]\<rparr>, lineNum)
      else if hasPrefix line ''---'' \<or> hasPrefix line ''+++'' then
        (\<lparr>kind = FileHeader, lineNumber = None, displayText = line @ [nl]\<rparr>, lineNum)
      else if hasPrefix line ''@@'' then
        (\<lparr>kind = HunkHeader, lineNumber = None,
          displayText = render r LineNumberStyle line @ [nl]\<rparr>, lineNum)
      else if hasPrefix line ''+'' \<and> \<not> hasPrefix line ''+++'' then
        (\<lparr>kind = Added, lineNumber = None,
          displayText =
            render r AddedLineStyle ''+'' @ syntaxHighlight r (trimPrefix line ''+'') @ [nl]\<rparr>,
         lineNum + 1)
      else if hasPrefix line ''-'' \<and> \<not> hasPrefix line ''---'' then
        (\<lparr>kind = Removed, lineNumber = None,
          displayText =
            render r RemovedLineStyle ''-'' @ syntaxHighlight r (trimPrefix line ''-'') @ [nl]\<rparr>,
         lineNum)
      else
        (\<lparr>kind = Context, lineNumber = Some lineNum,
          displayText =
            render r LineNumberStyle (padRight 4 (showNat lineNum)) @ syntaxHighlight r line
              @ [nl]\<rparr>,
         if line \<noteq> [] \<and> \<not> hasPrefix line ''@@'' then lineNum + 1 else lineNum))"

fun annotateLines :: "renderer \<Rightarrow> nat \<Rightarrow> string list \<Rightarrow> annotatedLine list \<times> nat" where
  \<comment> \<open>the loop over the lines (line 342), from a given value of \<^verbatim>\<open>lineNum\<close>: the annotated
      lines in order and the final value of \<^verbatim>\<open>lineNum\<close>\<close>
  "annotateLines r lineNum [] = ([], lineNum)"
| "annotateLines r lineNum (line # rest) =
     (let (a, lineNum') = annotateLine r lineNum line;
          (as, lineNum'') = annotateLines r lineNum' rest
      in (a # as, lineNum''))"

definition annotateDiff :: "renderer \<Rightarrow> string \<Rightarrow> annotatedLine list" where
  \<comment> \<open>lines 329 and 341 to 364: the diff text is split at newlines and \<^verbatim>\<open>lineNum\<close> starts
      at 1\<close>
  "annotateDiff r d = fst (annotateLines r 1 (splitOn nl d))"

fun lineNums :: "renderer \<Rightarrow> nat \<Rightarrow> string list \<Rightarrow> nat list" where
  \<comment> \<open>the value of \<^verbatim>\<open>lineNum\<close> at which the loop reaches each line\<close>
  "lineNums r lineNum [] = []"
| "lineNums r lineNum (line # rest) =
     lineNum # lineNums r (snd (annotateLine r lineNum line)) rest"

subsection \<open>Messages, commands and the model\<close>

text \<open>
  A \<^verbatim>\<open>time.Time\<close> is only stored and formatted, so an instant is a number. A key message
  carries the name \<^verbatim>\<open>msg.String()\<close> of its key, an error message the text of its error.
  \<open>OtherMsg\<close> stands for the messages of the framework that \<^verbatim>\<open>Update\<close> has no case for
  (mouse events and the like).
\<close>

record fileEvent =
  Time :: nat
  Event :: string
  File :: string

datatype msg =
    KeyMsg string
  | WindowSizeMsg int int
  | FileEventMsg fileEvent
  | DiffUpdateMsg string string
  | TickMsg nat
  | ErrMsg string
  | OtherMsg nat

text \<open>
  A \<^verbatim>\<open>tea.Cmd\<close> is a closure the framework runs. \<open>Deliver m\<close> is the closure of lines 296
  to 298, which returns the message \<open>m\<close>; \<open>Tick\<close> is \<^verbatim>\<open>tick()\<close>, which delivers a
  \<^verbatim>\<open>tickMsg\<close> after one second; \<open>LibCmd\<close> stands for the commands the viewport and table
  widgets return.
\<close>

datatype cmd =
    Quit
  | Tick
  | WatchDirectory string
  | Deliver msg
  | Batch "cmd list"
  | LibCmd nat

text \<open>
  The viewport and the table are widgets of the external library bubbles. Of the
  viewport the program assigns three public fields; everything else of a widget is an
  opaque value, and the library's functions on it are parameters.
\<close>

record 'v viewport =
  Width :: int
  Height :: int
  YPosition :: int
  internal :: 'v

record ('v, 't) widgets =
  renderer :: renderer
  formatTime :: "nat \<Rightarrow> string"
  viewportNew :: "int \<Rightarrow> int \<Rightarrow> 'v viewport"
  viewportSetContent :: "string \<Rightarrow> 'v viewport \<Rightarrow> 'v viewport"
  viewportUpdate :: "msg \<Rightarrow> 'v viewport \<Rightarrow> 'v viewport \<times> cmd"
  tableSetWidth :: "int \<Rightarrow> 't \<Rightarrow> 't"
  tableSetHeight :: "int \<Rightarrow> 't \<Rightarrow> 't"
  tableSetRows :: "string list list \<Rightarrow> 't \<Rightarrow> 't"
  tableUpdate :: "msg \<Rightarrow> 't \<Rightarrow> 't \<times> cmd"

text \<open>
  The model of lines 67 to 78. \<^verbatim>\<open>eventsMutex\<close> is left out: \<^verbatim>\<open>Update\<close> locks and unlocks
  it within one call, and nothing else touches \<^verbatim>\<open>events\<close>.
\<close>

record ('v, 't) model =
  watchDir :: string
  viewport :: "'v viewport"
  table :: 't
  width :: int
  height :: int
  diff :: string
  events :: "fileEvent list"
  ready :: bool
  lastModified :: string

subsection \<open>The diff provider (\<^verbatim>\<open>getDiff\<close>, lines 182 to 206)\<close>

text \<open>
  \<^verbatim>\<open>getDiff\<close> runs \<^verbatim>\<open>git diff\<close> and \<^verbatim>\<open>git status\<close> in the watched directory. What the two
  processes answer at the moment of a call is the state of the outside world: the
  result of \<^verbatim>\<open>git diff\<close> is its output or, when the call fails, the text of the error;
  of \<^verbatim>\<open>git status\<close> the program keeps the output and ignores the error.
\<close>

record provider =
  diffResult :: "string + string"
  statusOutput :: string

definition statusHint :: "string \<Rightarrow> string" where
  \<comment> \<open>lines 194 to 203\<close>
  "statusHint out =
     (if length out > 0 then
        (case find (\<lambda>line. length line > 3) (splitOn nl out) of
           None \<Rightarrow> []
         | Some line \<Rightarrow> trimSpace (drop 3 line))
      else [])"

definition getDiff :: "provider \<Rightarrow> string \<times> string" where
  "getDiff w =
     (case diffResult w of
        Inl err \<Rightarrow> (''Error getting diff: '' @ err, [])
      | Inr output \<Rightarrow> (output, statusHint (statusOutput w)))"

subsection \<open>The state machine (\<^verbatim>\<open>Init\<close>, \<^verbatim>\<open>Update\<close> and its helpers, lines 80 to 385)\<close>

definition updateDiffView :: "('v, 't) widgets \<Rightarrow> ('v, 't) model \<Rightarrow> ('v, 't) model" where
  "updateDiffView x m =
     (let hdr = (if lastModified m \<noteq> [] then ''Recent Diffs - '' @ lastModified m
                 else ''Recent Diffs'');
          content =
            render (renderer x) DiffHeaderStyle hdr @ [nl]
            @ ''--- '' @ watchDir m @ [nl]
            @ ''+++ /dev/null'' @ [nl]
            @ concat (map displayText (annotateDiff (renderer x) (diff m)))
      in m\<lparr>viewport := viewportSetContent x content (viewport m)\<rparr>)"

definition updateTable :: "('v, 't) widgets \<Rightarrow> ('v, 't) model \<Rightarrow> ('v, 't) model" where
  "updateTable x m =
     m\<lparr>table :=
         tableSetRows x (map (\<lambda>e. [formatTime x (Time e), Event e, File e]) (events m))
           (table m)\<rparr>"

definition appendEvent :: "fileEvent \<Rightarrow> fileEvent list \<Rightarrow> fileEvent list" where
  \<comment> \<open>lines 288 to 291\<close>
  "appendEvent e es = (let es' = [e] @ es in if length es' > 20 then take 20 es' else es')"

definition forward ::
  "('v, 't) widgets \<Rightarrow> ('v, 't) model \<Rightarrow> msg \<Rightarrow> ('v, 't) model \<times> cmd" where
  \<comment> \<open>lines 319 to 325: the message goes on to both widgets\<close>
  "forward x m msg =
     (let (vp, c1) = viewportUpdate x msg (viewport m);
          (tb, c2) = tableUpdate x msg (table m)
      in (m\<lparr>viewport := vp, table := tb\<rparr>, Batch [c1, c2]))"

definition resize :: "('v, 't) widgets \<Rightarrow> ('v, 't) model \<Rightarrow> int \<Rightarrow> int \<Rightarrow> ('v, 't) model" where
  \<comment> \<open>lines 268 to 284, with \<^verbatim>\<open>headerHeight = 3\<close> and \<^verbatim>\<open>tableHeight = 10\<close>\<close>
  "resize x m w h =
     (let m1 = m\<lparr>width := w, height := h\<rparr>;
          m2 = (if \<not> ready m1 then
                  m1\<lparr>viewport := (viewportNew x (width m1) (height m1 - 3 - 10))\<lparr>YPosition := 3\<rparr>,
                     ready := True\<rparr>
                else
                  m1\<lparr>viewport :=
                       (viewport m1)\<lparr>Width := width m1, Height := height m1 - 3 - 10\<rparr>\<rparr>)
      in m2\<lparr>table := tableSetHeight x (10 - 2) (tableSetWidth x (width m2) (table m2))\<rparr>)"

definition Init :: "('v, 't) model \<Rightarrow> cmd" where
  "Init m = Batch [WatchDirectory (watchDir m), Tick]"

text \<open>
  \<^verbatim>\<open>Update\<close> has a value receiver: it works on a copy of the model and returns it. It
  calls \<^verbatim>\<open>getDiff\<close> itself in two of its cases, so what the provider answers at that
  moment is an argument of the transition.
\<close>

definition Update ::
  "('v, 't) widgets \<Rightarrow> provider \<Rightarrow> ('v, 't) model \<Rightarrow> msg \<Rightarrow> ('v, 't) model \<times> cmd" where
  "Update x w m msg =
     (case msg of
        KeyMsg k \<Rightarrow> if k = ''q'' \<or> k = ''ctrl+c'' then (m, Quit) else forward x m msg
      | WindowSizeMsg wd ht \<Rightarrow> forward x (resize x m wd ht) msg
      | FileEventMsg e \<Rightarrow>
          (let m' = updateTable x (m\<lparr>events := appendEvent e (events m)\<rparr>);
               (d, lm) = getDiff w
           in (m', Deliver (DiffUpdateMsg d lm)))
      | DiffUpdateMsg d lm \<Rightarrow> forward x (updateDiffView x (m\<lparr>diff := d, lastModified := lm\<rparr>)) msg
      | TickMsg t \<Rightarrow>
          (let (d, lm) = getDiff w
           in (if d \<noteq> diff m then updateDiffView x (m\<lparr>diff := d, lastModified := lm\<rparr>) else m,
               Tick))
      | ErrMsg e \<Rightarrow> forward x (updateDiffView x (m\<lparr>diff := ''Error: '' @ e\<rparr>)) msg
      | OtherMsg _ \<Rightarrow> forward x m msg)"

text \<open>
  The framework hands the messages to \<^verbatim>\<open>Update\<close> one at a time, in arrival order. A
  run is a list of steps; a step is a message with the provider's answer at the moment
  the message is processed.
\<close>

fun run :: "('v, 't) widgets \<Rightarrow> ('v, 't) model \<Rightarrow> (provider \<times> msg) list \<Rightarrow> ('v, 't) model" where
  "run x m [] = m"
| "run x m ((w, msg) # steps) = run x (fst (Update x w m msg)) steps"

fun commands :: "('v, 't) widgets \<Rightarrow> ('v, 't) model \<Rightarrow> (provider \<times> msg) list \<Rightarrow> cmd list" where
  \<comment> \<open>the commands \<^verbatim>\<open>Update\<close> returns in a run, one per step\<close>
  "commands x m [] = []"
| "commands x m ((w, msg) # steps) =
     snd (Update x w m msg) # commands x (fst (Update x w m msg)) steps"

fun appended :: "(provider \<times> msg) list \<Rightarrow> fileEvent list" where
  \<comment> \<open>the file events of a run, in arrival order\<close>
  "appended [] = []"
| "appended ((w, FileEventMsg e) # steps) = e # appended steps"
| "appended ((w, _) # steps) = appended steps"

fun isTick :: "msg \<Rightarrow> bool" where
  "isTick (TickMsg t) = True"
| "isTick _ = False"

subsection \<open>The directory observer (\<^verbatim>\<open>watchDirectory\<close>, lines 115 to 152)\<close>






subsection \<open>Program start and concrete instances\<close>

definition initialModel :: "string \<Rightarrow> 'v viewport \<Rightarrow> 't \<Rightarrow> ('v, 't) model" where
  \<comment> \<open>lines 441 to 445: the watched directory and the table are set, every other field
      has Go's zero value (\<open>vp\<close> is the zero value of the viewport)\<close>
  "initialModel absDir vp t =
     \<lparr>watchDir = absDir, viewport = vp, table = t, width = 0, height = 0, diff = [],
      events = [], ready = False, lastModified = []\<rparr>"

text \<open>
  The instances below make the examples concrete: a renderer that adds no styling,
  widgets that only store what they are given, the operation masks of fsnotify, a
  provider whose \<^verbatim>\<open>git diff\<close> succeeds, and three diff texts.
\<close>

definition plainRenderer :: renderer where
  "plainRenderer = \<lparr>render = (\<lambda>st s. s), syntaxHighlight = (\<lambda>s. s)\<rparr>"

definition plainWidgets :: "(string, string list list) widgets" where
  "plainWidgets =
     \<lparr>renderer = plainRenderer,
      formatTime = showNat,
      viewportNew = (\<lambda>w h. \<lparr>Width = w, Height = h, YPosition = 0, internal = []\<rparr>),
      viewportSetContent = (\<lambda>c v. v\<lparr>internal := c\<rparr>),
      viewportUpdate = (\<lambda>msg v. (v, LibCmd 0)),
      tableSetWidth = (\<lambda>w t. t),
      tableSetHeight = (\<lambda>h t. t),
      tableSetRows = (\<lambda>rows t. rows),
      tableUpdate = (\<lambda>msg t. (t, LibCmd 0))\<rparr>"

definition demoModel :: "(string, string list list) model" where
  "demoModel =
     initialModel ''/repo'' \<lparr>Width = 0, Height = 0, YPosition = 0, internal = []\<rparr> []"

definition answer :: "string \<Rightarrow> string \<Rightarrow> provider" where
  "answer d s = \<lparr>diffResult = Inr d, statusOutput = s\<rparr>"


definition scenarioC :: string where
  "scenarioC =
     ''@@ -1,1 +1,2 @@'' @ [nl] @ ''-foo'' @ [nl] @ ''+foo'' @ [nl] @ ''+bar'' @ [nl]"

definition twoFileDiff :: string where
  "twoFileDiff =
     ''diff --git a/x b/x'' @ [nl] @ ''--- a/x'' @ [nl] @ ''+++ b/x'' @ [nl]
     @ ''@@ -1 +1 @@'' @ [nl] @ '' one'' @ [nl]
     @ ''diff --git a/y b/y'' @ [nl] @ ''--- a/y'' @ [nl] @ ''+++ b/y'' @ [nl]
     @ ''@@ -1 +1 @@'' @ [nl] @ '' two''"

section \<open>Properties\<close>

subsection \<open>Auxiliary facts\<close>

lemma hasPrefix_simps:
  "hasPrefix s [] = True"
  "hasPrefix [] (p # ps) = False"
  "hasPrefix (c # s) (p # ps) = (c = p \<and> hasPrefix s ps)"
  by (simp_all add: hasPrefix_def)

lemma annotateLines_append:
  "annotateLines r n (xs @ ys) =
     (fst (annotateLines r n xs) @ fst (annotateLines r (snd (annotateLines r n xs)) ys),
      snd (annotateLines r (snd (annotateLines r n xs)) ys))"
  by (induction xs arbitrary: n) (simp_all add: split_beta)

lemma annotateLine_mono: "n \<le> snd (annotateLine r n line)"
  by (simp add: annotateLine_def)

lemma annotateLines_mono: "n \<le> snd (annotateLines r n ls)"
proof (induction ls arbitrary: n)
  case Nil
  show ?case by simp
next
  case (Cons l ls)
  have "n \<le> snd (annotateLine r n l)" by (rule annotateLine_mono)
  also have "\<dots> \<le> snd (annotateLines r (snd (annotateLine r n l)) ls)" by (rule Cons.IH)
  finally show ?case by (simp add: split_beta)
qed

lemma annotateLine_number: "lineNumber (fst (annotateLine r n line)) = Some k \<Longrightarrow> k = n"
  by (simp add: annotateLine_def split: if_splits)

lemma annotateLines_numbers_bounds:
  "a \<in> set (fst (annotateLines r n ls)) \<Longrightarrow> lineNumber a = Some k \<Longrightarrow>
     n \<le> k \<and> k \<le> snd (annotateLines r n ls)"
proof (induction ls arbitrary: n)
  case Nil
  then show ?case by simp
next
  case (Cons l ls)
  let ?n' = "snd (annotateLine r n l)"
  from Cons.prems(1)
  have "a = fst (annotateLine r n l) \<or> a \<in> set (fst (annotateLines r ?n' ls))"
    by (simp add: split_beta)
  then show ?case
  proof
    assume "a = fst (annotateLine r n l)"
    with Cons.prems(2) have "k = n" by (simp add: annotateLine_number)
    moreover have "n \<le> ?n'" by (rule annotateLine_mono)
    moreover have "?n' \<le> snd (annotateLines r ?n' ls)" by (rule annotateLines_mono)
    ultimately show ?thesis by (simp add: split_beta)
  next
    assume "a \<in> set (fst (annotateLines r ?n' ls))"
    from Cons.IH [OF this Cons.prems(2)] annotateLine_mono [of n r l]
    show ?thesis by (simp add: split_beta)
  qed
qed

lemma annotateLines_numbers_sorted:
  "sorted (List.map_filter lineNumber (fst (annotateLines r n ls)))"
proof (induction ls arbitrary: n)
  case Nil
  show ?case by (simp add: List.map_filter_def)
next
  case (Cons l ls)
  let ?n' = "snd (annotateLine r n l)"
  let ?rest = "fst (annotateLines r ?n' ls)"
  have rest: "sorted (List.map_filter lineNumber ?rest)" by (rule Cons.IH)
  show ?case
  proof (cases "lineNumber (fst (annotateLine r n l))")
    case None
    with rest show ?thesis by (simp add: split_beta)
  next
    case (Some k)
    then have "k = n" by (rule annotateLine_number)
    have "\<forall>j \<in> set (List.map_filter lineNumber ?rest). k \<le> j"
    proof
      fix j assume "j \<in> set (List.map_filter lineNumber ?rest)"
      then obtain a where "a \<in> set ?rest" "lineNumber a = Some j"
        by (auto simp: List.map_filter_def)
      then have "?n' \<le> j" using annotateLines_numbers_bounds by blast
      with \<open>k = n\<close> annotateLine_mono [of n r l] show "k \<le> j" by simp
    qed
    with rest Some show ?thesis by (simp add: split_beta)
  qed
qed

lemma annotateLine_step:
  "snd (annotateLine r n line) =
     n + (if kind (fst (annotateLine r n' line)) = Added
            \<or> (kind (fst (annotateLine r n' line)) = Context \<and> line \<noteq> []) then 1 else 0)"
  by (simp add: annotateLine_def)

lemma annotateLines_count:
  "snd (annotateLines r n ls) =
     n + length (filter (\<lambda>l. kind (fst (annotateLine r 0 l)) = Added
                          \<or> (kind (fst (annotateLine r 0 l)) = Context \<and> l \<noteq> [])) ls)"
proof (induction ls arbitrary: n)
  case Nil
  show ?case by simp
next
  case (Cons l ls)
  show ?case
    using Cons.IH [of "snd (annotateLine r n l)"] annotateLine_step [of r n l 0]
    by (simp add: split_beta)
qed

lemma updateDiffView_fields [simp]:
  "diff (updateDiffView x m) = diff m"
  "lastModified (updateDiffView x m) = lastModified m"
  "events (updateDiffView x m) = events m"
  by (simp_all add: updateDiffView_def Let_def)

lemma forward_fields [simp]:
  "diff (fst (forward x m msg)) = diff m"
  "lastModified (fst (forward x m msg)) = lastModified m"
  "events (fst (forward x m msg)) = events m"
  by (simp_all add: forward_def split_beta)

lemma resize_fields [simp]:
  "diff (resize x m w h) = diff m"
  "lastModified (resize x m w h) = lastModified m"
  "events (resize x m w h) = events m"
  by (simp_all add: resize_def Let_def)

lemma updateTable_fields [simp]:
  "diff (updateTable x m) = diff m"
  "lastModified (updateTable x m) = lastModified m"
  "events (updateTable x m) = events m"
  by (simp_all add: updateTable_def)

lemma appendEvent_take: "appendEvent e es = take 20 (e # es)"
  by (simp add: appendEvent_def Let_def)

lemma events_Update:
  "events (fst (Update x w m msg)) =
     (case msg of FileEventMsg e \<Rightarrow> appendEvent e (events m) | _ \<Rightarrow> events m)"
  by (cases msg) (simp_all add: Update_def split_beta)

lemma take_append_take: "take n (xs @ take n ys) = take n (xs @ ys)"
  by (simp add: min_def)

lemma events_run:
  "length (events m) \<le> 20 \<Longrightarrow>
     events (run x m steps) = take 20 (rev (appended steps) @ events m)"
proof (induction steps arbitrary: m)
  case Nil
  then show ?case by simp
next
  case (Cons step steps)
  obtain w msg where step: "step = (w, msg)" by (cases step)
  let ?m' = "fst (Update x w m msg)"
  show ?case
  proof (cases msg)
    case (FileEventMsg e)
    then have ev: "events ?m' = take 20 (e # events m)"
      by (simp add: events_Update appendEvent_take)
    then have "length (events ?m') \<le> 20" by simp
    from Cons.IH [OF this] ev
    have "events (run x ?m' steps) = take 20 (rev (appended steps) @ take 20 (e # events m))"
      by simp
    also have "\<dots> = take 20 (rev (appended steps) @ e # events m)"
      by (rule take_append_take)
    finally show ?thesis using step FileEventMsg by simp
  qed (use Cons step in \<open>simp_all add: events_Update\<close>)
qed

lemma Update_tick_same:
  "fst (getDiff w) = diff m \<Longrightarrow> Update x w m (TickMsg t) = (m, Tick)"
  by (simp add: Update_def split_beta)

lemma Update_tick_changed:
  "fst (getDiff w) \<noteq> diff m \<Longrightarrow>
     Update x w m (TickMsg t) =
       (updateDiffView x (m\<lparr>diff := fst (getDiff w), lastModified := snd (getDiff w)\<rparr>), Tick)"
  by (simp add: Update_def split_beta)

lemma diff_after_tick: "diff (fst (Update x w m (TickMsg t))) = fst (getDiff w)"
  by (cases "fst (getDiff w) = diff m") (simp_all add: Update_tick_same Update_tick_changed)

lemma Update_fileEvent_cmd:
  "snd (Update x w m (FileEventMsg e)) =
     Deliver (DiffUpdateMsg (fst (getDiff w)) (snd (getDiff w)))"
  by (simp add: Update_def split_beta)

lemma Update_same_answer: "getDiff w = getDiff w' \<Longrightarrow> Update x w m msg = Update x w' m msg"
  by (cases msg) (simp_all add: Update_def)

lemma Update_model_no_tick:
  "\<not> isTick msg \<Longrightarrow> fst (Update x w m msg) = fst (Update x w' m msg)"
  by (cases msg) (simp_all add: Update_def split_beta)

lemma ticks_same_run:
  "\<forall>(w, msg) \<in> set steps. isTick msg \<and> fst (getDiff w) = diff m \<Longrightarrow> run x m steps = m"
proof (induction steps)
  case Nil
  show ?case by simp
next
  case (Cons step steps)
  obtain w msg where step: "step = (w, msg)" by (cases step)
  with Cons.prems have "isTick msg" and same: "fst (getDiff w) = diff m" by simp_all
  then obtain t where "msg = TickMsg t" by (cases msg) simp_all
  with same have "fst (Update x w m msg) = m" by (simp add: Update_tick_same)
  with Cons step show ?case by simp
qed

lemma context_block:
  "\<forall>l \<in> set ls. \<not> hasPrefix l ''diff --git'' \<and> \<not> hasPrefix l ''---'' \<and> \<not> hasPrefix l ''+++''
       \<and> \<not> hasPrefix l ''@@'' \<and> \<not> hasPrefix l ''+'' \<and> \<not> hasPrefix l ''-'' \<Longrightarrow>
     map kind (fst (annotateLines r n ls)) = replicate (length ls) Context
     \<and> snd (annotateLines r n ls) = n + length (filter (\<lambda>l. l \<noteq> []) ls)"
proof (induction ls arbitrary: n)
  case Nil
  show ?case by simp
next
  case (Cons l ls)
  from Cons.prems have l: "kind (fst (annotateLine r n l)) = Context"
    "snd (annotateLine r n l) = (if l = [] then n else n + 1)"
    by (simp_all add: annotateLine_def)
  from Cons.prems have "\<forall>l \<in> set ls. \<not> hasPrefix l ''diff --git'' \<and> \<not> hasPrefix l ''---''
       \<and> \<not> hasPrefix l ''+++'' \<and> \<not> hasPrefix l ''@@'' \<and> \<not> hasPrefix l ''+''
       \<and> \<not> hasPrefix l ''-''"
    by simp
  from Cons.IH [OF this, of "snd (annotateLine r n l)"] l show ?case
    by (simp add: split_beta)
qed

subsection \<open>The event history\<close>

text \<open>
  Claim C3. The history starts empty. After any run, the history holds the file events of
  the run, most recent first, cut to its first 20: it has \<open>min k 20\<close> elements when \<open>k\<close>
  events were appended, and no more than 20 after every step of the run; a step from
  any model with at most 20 events leaves at most 20. The events created "a", modified
  "a", deleted "b", arriving in this order, leave the history deleted "b", modified
  "a", created "a".
\<close>

theorem history_most_recent_first_bounded:
  assumes "events m = []"
  shows "events (run x m steps) = take 20 (rev (appended steps))
    \<and> length (events (run x m steps)) = min (length (appended steps)) 20
    \<and> (\<forall>i. length (events (run x m (take i steps))) \<le> 20)
    \<and> (length (events m') \<le> 20 \<longrightarrow> length (events (fst (Update x w m' msg))) \<le> 20)
    \<and> events (run x m
          [(w1, FileEventMsg \<lparr>Time = t1, Event = ''created'', File = ''a''\<rparr>),
           (w2, FileEventMsg \<lparr>Time = t2, Event = ''modified'', File = ''a''\<rparr>),
           (w3, FileEventMsg \<lparr>Time = t3, Event = ''deleted'', File = ''b''\<rparr>)])
        = [\<lparr>Time = t3, Event = ''deleted'', File = ''b''\<rparr>,
           \<lparr>Time = t2, Event = ''modified'', File = ''a''\<rparr>,
           \<lparr>Time = t1, Event = ''created'', File = ''a''\<rparr>]"
proof -
  have run_events: "events (run x m ss) = take 20 (rev (appended ss))" for ss
    using assms events_run [of m x ss] by simp
  have "length (events (run x m (take i steps))) \<le> 20" for i
    by (simp add: run_events)
  moreover have "length (events (run x m steps)) = min (length (appended steps)) 20"
    by (simp add: run_events)
  moreover have "length (events m') \<le> 20 \<longrightarrow> length (events (fst (Update x w m' msg))) \<le> 20"
    by (cases msg) (simp_all add: events_Update appendEvent_take)
  moreover have "events (run x m
          [(w1, FileEventMsg \<lparr>Time = t1, Event = ''created'', File = ''a''\<rparr>),
           (w2, FileEventMsg \<lparr>Time = t2, Event = ''modified'', File = ''a''\<rparr>),
           (w3, FileEventMsg \<lparr>Time = t3, Event = ''deleted'', File = ''b''\<rparr>)])
        = [\<lparr>Time = t3, Event = ''deleted'', File = ''b''\<rparr>,
           \<lparr>Time = t2, Event = ''modified'', File = ''a''\<rparr>,
           \<lparr>Time = t1, Event = ''created'', File = ''a''\<rparr>]"
    by (simp only: run_events) simp
  ultimately show ?thesis
    using run_events [of steps] by blast
qed

text \<open>
  The startup model has an empty history; two file events with a timer tick between
  them leave the two events, the later one first.
\<close>

theorem history_most_recent_first_bounded_witness:
  "events demoModel = []
   \<and> events (run plainWidgets demoModel
        [(answer [] [], FileEventMsg \<lparr>Time = 1, Event = ''created'', File = ''a''\<rparr>),
         (answer [] [], TickMsg 2),
         (answer [] [], FileEventMsg \<lparr>Time = 3, Event = ''deleted'', File = ''b''\<rparr>)])
      = [\<lparr>Time = 3, Event = ''deleted'', File = ''b''\<rparr>,
         \<lparr>Time = 1, Event = ''created'', File = ''a''\<rparr>]"
proof -
  have start: "events demoModel = []"
    by (simp add: demoModel_def initialModel_def)
  from history_most_recent_first_bounded
    [OF start, of plainWidgets
      "[(answer [] [], FileEventMsg \<lparr>Time = 1, Event = ''created'', File = ''a''\<rparr>),
        (answer [] [], TickMsg 2),
        (answer [] [], FileEventMsg \<lparr>Time = 3, Event = ''deleted'', File = ''b''\<rparr>)]"]
    start
  show ?thesis
    by (simp del: run.simps)
qed

subsection \<open>Line numbers in the diff view\<close>

text \<open>
  Claim C4, as amended. Line numbers start at 1 for the whole diff and the counter is
  never reset. A line starting \<^verbatim>\<open>diff --git\<close>, \<^verbatim>\<open>---\<close> or \<^verbatim>\<open>+++\<close> prints no number and
  leaves the counter as it is; a printed number is the value of the counter; the
  second of two blocks of lines is numbered from the value the counter has after the
  first; the counter never decreases; so every printed number is at least 1 and the
  printed numbers never decrease from the first line of a diff to its last.
\<close>

theorem line_counter_never_reset:
  "(hasPrefix line ''diff --git'' \<or> hasPrefix line ''---'' \<or> hasPrefix line ''+++'' \<longrightarrow>
      snd (annotateLine r n line) = n \<and> lineNumber (fst (annotateLine r n line)) = None)
   \<and> (lineNumber (fst (annotateLine r n line)) = Some k \<longrightarrow> k = n)
   \<and> annotateLines r n (block1 @ block2) =
       (fst (annotateLines r n block1)
          @ fst (annotateLines r (snd (annotateLines r n block1)) block2),
        snd (annotateLines r (snd (annotateLines r n block1)) block2))
   \<and> n \<le> snd (annotateLines r n block1)
   \<and> annotateDiff r d = fst (annotateLines r 1 (splitOn nl d))
   \<and> (\<forall>a \<in> set (annotateDiff r d). \<forall>j. lineNumber a = Some j \<longrightarrow> 1 \<le> j)
   \<and> sorted (List.map_filter lineNumber (annotateDiff r d))"
proof -
  have "hasPrefix line ''diff --git'' \<or> hasPrefix line ''---'' \<or> hasPrefix line ''+++'' \<longrightarrow>
      snd (annotateLine r n line) = n \<and> lineNumber (fst (annotateLine r n line)) = None"
    by (simp add: annotateLine_def)
  moreover have "lineNumber (fst (annotateLine r n line)) = Some k \<longrightarrow> k = n"
    using annotateLine_number by blast
  moreover have "\<forall>a \<in> set (annotateDiff r d). \<forall>j. lineNumber a = Some j \<longrightarrow> 1 \<le> j"
    unfolding annotateDiff_def using annotateLines_numbers_bounds by blast
  moreover have "sorted (List.map_filter lineNumber (annotateDiff r d))"
    unfolding annotateDiff_def by (rule annotateLines_numbers_sorted)
  ultimately show ?thesis
    using annotateLines_append [of r n block1 block2] annotateLines_mono [of n r block1]
    by (simp add: annotateDiff_def)
qed

text \<open>
  A file-header line met at counter 2 leaves it at 2, and the second file's context
  line continues the numbering of the first.
\<close>

theorem line_counter_never_reset_witness:
  "hasPrefix ''--- a/y'' ''---''
   \<and> snd (annotateLine plainRenderer 2 ''--- a/y'') = 2
   \<and> snd (annotateLines plainRenderer 1 [''--- a/x'', '' one'']) = 2
   \<and> map lineNumber (fst (annotateLines plainRenderer 1 ([''--- a/x'', '' one''] @ [''--- a/y'', '' two''])))
       = [None, Some 1, None, Some 2]
   \<and> List.map_filter lineNumber (annotateDiff plainRenderer twoFileDiff) = [1, 2]"
  using line_counter_never_reset
    [of "''--- a/y''" plainRenderer 2 2 "[''--- a/x'', '' one'']" "[''--- a/y'', '' two'']"
       twoFileDiff]
  by (simp add: annotateDiff_def twoFileDiff_def annotateLine_def hasPrefix_def)

text \<open>
  Claim C4 as stated fails: in a diff of two files with one context line each, the
  context line of the second file is printed with number 2, not 1.
\<close>

theorem second_file_block_continues_numbering:
  "map kind (annotateDiff plainRenderer twoFileDiff) =
     [DiffGitHeader, FileHeader, FileHeader, HunkHeader, Context,
      DiffGitHeader, FileHeader, FileHeader, HunkHeader, Context]
   \<and> map lineNumber (annotateDiff plainRenderer twoFileDiff) =
     [None, None, None, None, Some 1, None, None, None, None, Some 2]"
  by (simp add: annotateDiff_def twoFileDiff_def annotateLine_def hasPrefix_def)

text \<open>
  Claim C5, as amended. A removal-marked line (it starts with \<^verbatim>\<open>-\<close> but not with \<^verbatim>\<open>---\<close>)
  receives no line number and leaves the counter as it is; an addition-marked line (it
  starts with \<^verbatim>\<open>+\<close> but not with \<^verbatim>\<open>+++\<close>) advances the counter by one. Over any lines
  the counter advances by the number of added lines and of context lines that are not
  empty. The annotation of \<open>scenarioC\<close> begins with the hunk header, the removed "foo"
  with no line number, the added "foo", reached at line number 1, and the added "bar",
  reached at line number 2; the counter is 3 after them.
\<close>

theorem removed_no_number_added_advances:
  "(hasPrefix line ''-'' \<and> \<not> hasPrefix line ''---'' \<longrightarrow>
      kind (fst (annotateLine r n line)) = Removed
      \<and> lineNumber (fst (annotateLine r n line)) = None
      \<and> snd (annotateLine r n line) = n)
   \<and> (hasPrefix line ''+'' \<and> \<not> hasPrefix line ''+++'' \<longrightarrow>
      kind (fst (annotateLine r n line)) = Added
      \<and> snd (annotateLine r n line) = n + 1)
   \<and> snd (annotateLines r n ls) =
       n + length (filter (\<lambda>l. kind (fst (annotateLine r 0 l)) = Added
                            \<or> (kind (fst (annotateLine r 0 l)) = Context \<and> l \<noteq> [])) ls)
   \<and> take 4 (splitOn nl scenarioC) = [''@@ -1,1 +1,2 @@'', ''-foo'', ''+foo'', ''+bar'']
   \<and> map kind (take 4 (annotateDiff r scenarioC)) = [HunkHeader, Removed, Added, Added]
   \<and> map displayText (take 4 (annotateDiff r scenarioC)) =
       [render r LineNumberStyle ''@@ -1,1 +1,2 @@'' @ [nl],
        render r RemovedLineStyle ''-'' @ syntaxHighlight r ''foo'' @ [nl],
        render r AddedLineStyle ''+'' @ syntaxHighlight r ''foo'' @ [nl],
        render r AddedLineStyle ''+'' @ syntaxHighlight r ''bar'' @ [nl]]
   \<and> lineNumber (annotateDiff r scenarioC ! 1) = None
   \<and> take 4 (lineNums r 1 (splitOn nl scenarioC)) = [1, 1, 1, 2]
   \<and> snd (annotateLines r 1 (take 4 (splitOn nl scenarioC))) = 3"
proof -
  have removed: "hasPrefix line ''-'' \<and> \<not> hasPrefix line ''---'' \<longrightarrow>
      kind (fst (annotateLine r n line)) = Removed
      \<and> lineNumber (fst (annotateLine r n line)) = None
      \<and> snd (annotateLine r n line) = n"
    by (cases line) (simp_all add: annotateLine_def hasPrefix_simps)
  have added: "hasPrefix line ''+'' \<and> \<not> hasPrefix line ''+++'' \<longrightarrow>
      kind (fst (annotateLine r n line)) = Added
      \<and> snd (annotateLine r n line) = n + 1"
    by (cases line) (simp_all add: annotateLine_def hasPrefix_simps)
  have pieces: "take 4 (splitOn nl scenarioC) = [''@@ -1,1 +1,2 @@'', ''-foo'', ''+foo'', ''+bar'']"
    by (simp add: scenarioC_def)
  have kinds: "map kind (take 4 (annotateDiff r scenarioC)) = [HunkHeader, Removed, Added, Added]"
    by (simp add: annotateDiff_def scenarioC_def annotateLine_def hasPrefix_simps)
  have texts: "map displayText (take 4 (annotateDiff r scenarioC)) =
       [render r LineNumberStyle ''@@ -1,1 +1,2 @@'' @ [nl],
        render r RemovedLineStyle ''-'' @ syntaxHighlight r ''foo'' @ [nl],
        render r AddedLineStyle ''+'' @ syntaxHighlight r ''foo'' @ [nl],
        render r AddedLineStyle ''+'' @ syntaxHighlight r ''bar'' @ [nl]]"
    by (simp add: annotateDiff_def scenarioC_def annotateLine_def hasPrefix_simps
        trimPrefix_def)
  have nonum: "lineNumber (annotateDiff r scenarioC ! 1) = None"
    by (simp add: annotateDiff_def scenarioC_def annotateLine_def hasPrefix_simps)
  have nums: "take 4 (lineNums r 1 (splitOn nl scenarioC)) = [1, 1, 1, 2]"
    by (simp add: scenarioC_def annotateLine_def hasPrefix_simps)
  have after: "snd (annotateLines r 1 (take 4 (splitOn nl scenarioC))) = 3"
    by (simp add: scenarioC_def annotateLine_def hasPrefix_simps)
  from removed added annotateLines_count [of r n ls] pieces kinds texts nonum nums after
  show ?thesis by blast
qed

text \<open>
  \<^verbatim>\<open>-old\<close> and then \<^verbatim>\<open>+new\<close> from counter 1: the removed line leaves the counter at 1, so
  number 1 goes to the added line, and the line after them is reached at 2.
\<close>

theorem removed_no_number_added_advances_witness:
  "hasPrefix ''-old'' ''-'' \<and> \<not> hasPrefix ''-old'' ''---''
   \<and> hasPrefix ''+new'' ''+'' \<and> \<not> hasPrefix ''+new'' ''+++''
   \<and> snd (annotateLine plainRenderer 1 ''-old'') = 1
   \<and> lineNumber (fst (annotateLine plainRenderer 1 ''-old'')) = None
   \<and> snd (annotateLine plainRenderer 1 ''+new'') = 2
   \<and> lineNums plainRenderer 1 [''-old'', ''+new'', '' next''] = [1, 1, 2]
   \<and> snd (annotateLines plainRenderer 1 [''-old'', ''+new'', '' next'']) = 3"
proof -
  have old: "hasPrefix ''-old'' ''-'' \<and> \<not> hasPrefix ''-old'' ''---''"
    and new: "hasPrefix ''+new'' ''+'' \<and> \<not> hasPrefix ''+new'' ''+++''"
    by (simp_all add: hasPrefix_simps)
  from removed_no_number_added_advances [of "''-old''" plainRenderer 1] old
  have r1: "snd (annotateLine plainRenderer 1 ''-old'') = 1"
    and r2: "lineNumber (fst (annotateLine plainRenderer 1 ''-old'')) = None"
    by blast+
  from removed_no_number_added_advances [of "''+new''" plainRenderer 1] new
  have a1: "snd (annotateLine plainRenderer 1 ''+new'') = 2"
    by simp
  have nums: "lineNums plainRenderer 1 [''-old'', ''+new'', '' next''] = [1, 1, 2]"
    using r1 a1 by simp
  from removed_no_number_added_advances
    [of _ plainRenderer 1 "[''-old'', ''+new'', '' next'']"]
  have "snd (annotateLines plainRenderer 1 [''-old'', ''+new'', '' next'']) =
      1 + length (filter (\<lambda>l. kind (fst (annotateLine plainRenderer 0 l)) = Added
                          \<or> (kind (fst (annotateLine plainRenderer 0 l)) = Context \<and> l \<noteq> []))
                  [''-old'', ''+new'', '' next''])"
    by blast
  then have total: "snd (annotateLines plainRenderer 1 [''-old'', ''+new'', '' next'']) = 3"
    by (simp add: annotateLine_def hasPrefix_simps)
  from old new r1 r2 a1 nums total show ?thesis by blast
qed

text \<open>
  Claim C5 as stated fails on its example: the annotation of \<open>scenarioC\<close> has five lines,
  not four. The empty text after the last newline is a piece of the split as well, and
  it comes out as an empty context line printed with 3, which it does not advance.
\<close>

theorem scenarioC_has_five_lines:
  "length (annotateDiff plainRenderer scenarioC) = 5
   \<and> map kind (annotateDiff plainRenderer scenarioC) =
       [HunkHeader, Removed, Added, Added, Context]
   \<and> map kind (annotateDiff plainRenderer scenarioC) \<noteq> [HunkHeader, Removed, Added, Added]
   \<and> displayText (last (annotateDiff plainRenderer scenarioC)) = ''3   '' @ [nl]
   \<and> snd (annotateLines plainRenderer 1 (splitOn nl scenarioC)) = 3"
  by (simp add: annotateDiff_def scenarioC_def annotateLine_def hasPrefix_simps plainRenderer_def
      padRight_def showNat.simps digit_def numeral_3_eq_3)

text \<open>
  Claim C6, as amended. A line that starts with none of \<^verbatim>\<open>diff --git\<close>, \<^verbatim>\<open>---\<close>, \<^verbatim>\<open>+++\<close>,
  \<^verbatim>\<open>@@\<close>, \<^verbatim>\<open>+\<close> and \<^verbatim>\<open>-\<close> is a context line, printed with the current value of the
  counter; it advances the counter by one when it is not empty and leaves it as it is
  when it is empty. So a block of such lines consists of context lines only and
  advances the counter by the number of its lines that are not empty.
\<close>

theorem other_lines_are_context:
  "(\<not> hasPrefix line ''diff --git'' \<and> \<not> hasPrefix line ''---'' \<and> \<not> hasPrefix line ''+++''
      \<and> \<not> hasPrefix line ''@@'' \<and> \<not> hasPrefix line ''+'' \<and> \<not> hasPrefix line ''-'' \<longrightarrow>
     kind (fst (annotateLine r n line)) = Context
     \<and> lineNumber (fst (annotateLine r n line)) = Some n
     \<and> snd (annotateLine r n line) = (if line = [] then n else n + 1))
   \<and> ((\<forall>l \<in> set ls. \<not> hasPrefix l ''diff --git'' \<and> \<not> hasPrefix l ''---''
          \<and> \<not> hasPrefix l ''+++'' \<and> \<not> hasPrefix l ''@@'' \<and> \<not> hasPrefix l ''+''
          \<and> \<not> hasPrefix l ''-'') \<longrightarrow>
     map kind (fst (annotateLines r n ls)) = replicate (length ls) Context
     \<and> snd (annotateLines r n ls) = n + length (filter (\<lambda>l. l \<noteq> []) ls))"
proof -
  have one: "\<not> hasPrefix line ''diff --git'' \<and> \<not> hasPrefix line ''---''
      \<and> \<not> hasPrefix line ''+++'' \<and> \<not> hasPrefix line ''@@'' \<and> \<not> hasPrefix line ''+''
      \<and> \<not> hasPrefix line ''-'' \<longrightarrow>
     kind (fst (annotateLine r n line)) = Context
     \<and> lineNumber (fst (annotateLine r n line)) = Some n
     \<and> snd (annotateLine r n line) = (if line = [] then n else n + 1)"
    by (simp add: annotateLine_def)
  from one context_block [of ls r n] show ?thesis by blast
qed

text \<open>
  A context line of a diff, met at counter 4: it is printed with 4 and the counter
  becomes 5. A block of a context line, an empty line and another context line takes
  the counter from 4 to 6.
\<close>

theorem other_lines_are_context_witness:
  "\<not> hasPrefix '' ctx'' ''diff --git'' \<and> \<not> hasPrefix '' ctx'' ''---''
   \<and> \<not> hasPrefix '' ctx'' ''+++'' \<and> \<not> hasPrefix '' ctx'' ''@@''
   \<and> \<not> hasPrefix '' ctx'' ''+'' \<and> \<not> hasPrefix '' ctx'' ''-''
   \<and> kind (fst (annotateLine plainRenderer 4 '' ctx'')) = Context
   \<and> lineNumber (fst (annotateLine plainRenderer 4 '' ctx'')) = Some 4
   \<and> snd (annotateLine plainRenderer 4 '' ctx'') = 5
   \<and> snd (annotateLines plainRenderer 4 ['' ctx'', [], '' more'']) = 6"
proof -
  have h: "\<not> hasPrefix '' ctx'' ''diff --git'' \<and> \<not> hasPrefix '' ctx'' ''---''
    \<and> \<not> hasPrefix '' ctx'' ''+++'' \<and> \<not> hasPrefix '' ctx'' ''@@''
    \<and> \<not> hasPrefix '' ctx'' ''+'' \<and> \<not> hasPrefix '' ctx'' ''-''"
    by (simp add: hasPrefix_simps)
  have hs: "\<forall>l \<in> set ['' ctx'', [], '' more'']. \<not> hasPrefix l ''diff --git''
    \<and> \<not> hasPrefix l ''---'' \<and> \<not> hasPrefix l ''+++'' \<and> \<not> hasPrefix l ''@@''
    \<and> \<not> hasPrefix l ''+'' \<and> \<not> hasPrefix l ''-''"
    by (simp add: hasPrefix_simps)
  note ctx = other_lines_are_context [of "'' ctx''" plainRenderer 4 "['' ctx'', [], '' more'']"]
  from ctx h have single: "kind (fst (annotateLine plainRenderer 4 '' ctx'')) = Context
     \<and> lineNumber (fst (annotateLine plainRenderer 4 '' ctx'')) = Some 4
     \<and> snd (annotateLine plainRenderer 4 '' ctx'') = 5"
    by simp
  from ctx hs have "snd (annotateLines plainRenderer 4 ['' ctx'', [], '' more'']) =
      4 + length (filter (\<lambda>l. l \<noteq> []) ['' ctx'', [], '' more''])"
    by blast
  then have "snd (annotateLines plainRenderer 4 ['' ctx'', [], '' more'']) = 6"
    by simp
  with h single show ?thesis by blast
qed

text \<open>
  Claim C6 as stated fails: the empty line is none of the four other kinds and is
  classified as context, but it does not advance the counter. A line starting
  \<^verbatim>\<open>diff --git\<close> has a branch of its own and does not advance the counter either.
\<close>

theorem empty_line_does_not_count:
  "\<not> hasPrefix [] ''diff --git'' \<and> \<not> hasPrefix [] ''---'' \<and> \<not> hasPrefix [] ''+++''
   \<and> \<not> hasPrefix [] ''@@'' \<and> \<not> hasPrefix [] ''+'' \<and> \<not> hasPrefix [] ''-''
   \<and> kind (fst (annotateLine plainRenderer 5 [])) = Context
   \<and> snd (annotateLine plainRenderer 5 []) = 5
   \<and> kind (fst (annotateLine plainRenderer 5 ''diff --git a/x b/x'')) = DiffGitHeader
   \<and> snd (annotateLine plainRenderer 5 ''diff --git a/x b/x'') = 5"
  by (simp add: annotateLine_def hasPrefix_simps)

subsection \<open>The path hint of \<^verbatim>\<open>getDiff\<close>\<close>

lemma find_first:
  "\<forall>l \<in> set short. \<not> P l \<Longrightarrow> P line \<Longrightarrow> find P (short @ line # rest) = Some line"
  by (induction short) simp_all

lemma unicodeSpaces_nonempty: "u \<in> set unicodeSpaces \<Longrightarrow> u \<noteq> []"
  by (auto simp: unicodeSpaces_def)

lemma leadingSpace_trimLeft: "leadingSpace (trimLeft s) = 0"
proof (induction s rule: trimLeft.induct)
  case (1 s)
  show ?case
  proof (cases "leadingSpace s = 0")
    case True
    then show ?thesis by (subst trimLeft.simps) simp
  next
    case False
    with 1 show ?thesis by (subst trimLeft.simps) simp
  qed
qed

lemma trailingSpace_trimRight: "trailingSpace (trimRight s) = 0"
proof (induction s rule: trimRight.induct)
  case (1 s)
  show ?case
  proof (cases "trailingSpace s = 0")
    case True
    then show ?thesis by (subst trimRight.simps) simp
  next
    case False
    with 1 show ?thesis by (subst trimRight.simps) simp
  qed
qed

lemma trimRight_take: "\<exists>k. trimRight s = take k s"
proof (induction s rule: trimRight.induct)
  case (1 s)
  show ?case
  proof (cases "trailingSpace s = 0")
    case True
    then have "trimRight s = take (length s) s" by (subst trimRight.simps) simp
    then show ?thesis by blast
  next
    case False
    from 1 [OF False] obtain k where "trimRight (take (length s - trailingSpace s) s) =
      take k (take (length s - trailingSpace s) s)" by blast
    with False have "trimRight s = take (min k (length s - trailingSpace s)) s"
      by (subst trimRight.simps) simp
    then show ?thesis by blast
  qed
qed

lemma hasPrefix_take: "hasPrefix (take k s) u \<Longrightarrow> hasPrefix s u"
proof -
  assume "hasPrefix (take k s) u"
  then have eq: "take (length u) (take k s) = u" by (simp add: hasPrefix_def)
  then have "length (take (length u) (take k s)) = length u" by simp
  then have "length u \<le> k" by simp
  with eq have "take (length u) s = u" by (simp add: min_def)
  then show ?thesis by (simp add: hasPrefix_def)
qed

lemma leadingSpace_zero:
  "leadingSpace (c # cs) = 0 \<longleftrightarrow>
     \<not> asciiSpace c \<and> (\<forall>u \<in> set unicodeSpaces. \<not> hasPrefix (c # cs) u)"
proof (cases "find (hasPrefix (c # cs)) unicodeSpaces")
  case None
  from None have "\<forall>u \<in> set unicodeSpaces. \<not> hasPrefix (c # cs) u"
    by (simp only: find_None_iff) simp
  with None show ?thesis by (simp add: leadingSpace_def)
next
  case (Some u)
  then have "u \<in> set unicodeSpaces" "hasPrefix (c # cs) u"
    by (auto simp: find_Some_iff)
  with Some unicodeSpaces_nonempty [of u] show ?thesis
    by (auto simp: leadingSpace_def)
qed

lemma leadingSpace_take: "leadingSpace s = 0 \<Longrightarrow> leadingSpace (take k s) = 0"
proof (cases "take k s")
  case Nil
  show ?thesis unfolding leadingSpace_def Nil by simp
next
  case (Cons c cs)
  assume zero: "leadingSpace s = 0"
  from Cons obtain cs' where s: "s = c # cs'" by (cases s; cases k) auto
  from zero s have "\<not> asciiSpace c" and "\<forall>u \<in> set unicodeSpaces. \<not> hasPrefix s u"
    by (simp_all add: leadingSpace_zero)
  then have "\<not> asciiSpace c \<and> (\<forall>u \<in> set unicodeSpaces. \<not> hasPrefix (take k s) u)"
    using hasPrefix_take by blast
  with Cons show ?thesis by (simp add: leadingSpace_zero)
qed

lemma trimSpace_trimmed: "leadingSpace (trimSpace s) = 0 \<and> trailingSpace (trimSpace s) = 0"
proof -
  from trimRight_take [of "trimLeft s"] obtain k where k: "trimSpace s = take k (trimLeft s)"
    unfolding trimSpace_def ..
  have "leadingSpace (trimSpace s) = 0"
    unfolding k by (rule leadingSpace_take) (rule leadingSpace_trimLeft)
  moreover have "trailingSpace (trimSpace s) = 0"
    unfolding trimSpace_def by (rule trailingSpace_trimRight)
  ultimately show ?thesis by (rule conjI)
qed

text \<open>
  Claim C9. When \<^verbatim>\<open>git diff\<close> succeeds, the hint is the text after the first three bytes
  of the first line of the status listing that is longer than three bytes, with the
  white space at both ends trimmed. The hint is empty when the status output is empty
  and when \<^verbatim>\<open>git diff\<close> fails. In every case the hint neither starts nor ends with a
  space character.
\<close>

theorem getDiff_hint:
  "(diffResult w = Inr d \<and> splitOn nl (statusOutput w) = short @ line # rest
      \<and> (\<forall>l \<in> set short. length l \<le> 3) \<and> 3 < length line \<longrightarrow>
        getDiff w = (d, trimSpace (drop 3 line)))
   \<and> (statusOutput w = [] \<longrightarrow> snd (getDiff w) = [])
   \<and> (diffResult w = Inl err \<longrightarrow> snd (getDiff w) = [])
   \<and> leadingSpace (snd (getDiff w)) = 0 \<and> trailingSpace (snd (getDiff w)) = 0"
proof -
  have first: "getDiff w = (d, trimSpace (drop 3 line))"
    if "diffResult w = Inr d" "splitOn nl (statusOutput w) = short @ line # rest"
      "\<forall>l \<in> set short. length l \<le> 3" "3 < length line"
  proof -
    from that(3) have "\<forall>l \<in> set short. \<not> 3 < length l" by auto
    with that(4) have "find (\<lambda>l. 3 < length l) (short @ line # rest) = Some line"
      by (simp add: find_first)
    moreover have "statusOutput w \<noteq> []"
    proof
      assume "statusOutput w = []"
      with that(2) have "short @ line # rest = [[]]" by simp
      then have "line = []" by (cases short) auto
      with that(4) show False by simp
    qed
    ultimately show ?thesis using that(1,2) by (simp add: getDiff_def statusHint_def)
  qed
  have empty: "snd (getDiff w) = []" if "statusOutput w = []"
    using that by (simp add: getDiff_def statusHint_def split: sum.splits)
  have failed: "snd (getDiff w) = []" if "diffResult w = Inl err"
    using that by (simp add: getDiff_def)
  have nil: "leadingSpace [] = 0" "trailingSpace [] = 0"
    by (simp_all add: leadingSpace_def trailingSpace_def)
  have "leadingSpace (snd (getDiff w)) = 0 \<and> trailingSpace (snd (getDiff w)) = 0"
    by (simp add: getDiff_def statusHint_def trimSpace_trimmed nil split: sum.splits option.splits)
  with first empty failed show ?thesis by blast
qed

text \<open>
  A status listing whose first line is too short: the hint comes from the second line.
  An empty listing and a failing \<^verbatim>\<open>git diff\<close> give the empty hint.
\<close>

theorem getDiff_hint_witness:
  "splitOn nl (''??'' @ [nl] @ '' M  src/a.go '' @ [nl] @ ''?? b.txt'' @ [nl])
     = [''??''] @ '' M  src/a.go '' # [''?? b.txt'', []]
   \<and> getDiff (answer ''D'' (''??'' @ [nl] @ '' M  src/a.go '' @ [nl] @ ''?? b.txt'' @ [nl]))
       = (''D'', ''src/a.go'')
   \<and> snd (getDiff (answer ''D'' [])) = []
   \<and> snd (getDiff \<lparr>diffResult = Inl ''exit status 128'', statusOutput = '' M a''\<rparr>) = []"
proof -
  let ?s = "''??'' @ [nl] @ '' M  src/a.go '' @ [nl] @ ''?? b.txt'' @ [nl]"
  have split: "splitOn nl ?s = [''??''] @ '' M  src/a.go '' # [''?? b.txt'', []]"
    by simp
  have trim: "trimSpace (drop 3 '' M  src/a.go '') = ''src/a.go''"
    by (simp add: trimSpace_def trimLeft.simps trimRight.simps leadingSpace_def
        trailingSpace_def asciiSpace_def unicodeSpaces_def hasPrefix_simps)
  have "getDiff (answer ''D'' ?s) = (''D'', trimSpace (drop 3 '' M  src/a.go ''))"
    using getDiff_hint [of "answer ''D'' ?s" "''D''" "[''??'']" "'' M  src/a.go ''"
        "[''?? b.txt'', []]"] split
    by (simp add: answer_def)
  moreover have "snd (getDiff (answer ''D'' [])) = []"
    using getDiff_hint [of "answer ''D'' []"] by (simp add: answer_def)
  moreover have
    "snd (getDiff \<lparr>diffResult = Inl ''exit status 128'', statusOutput = '' M a''\<rparr>) = []"
    using getDiff_hint
      [of "\<lparr>diffResult = Inl ''exit status 128'', statusOutput = '' M a''\<rparr>" _ _ _ _
        "''exit status 128''"]
    by simp
  ultimately show ?thesis using split trim by simp
qed

subsection \<open>Diff refresh\<close>

text \<open>
  Claim C10. A timer tick whose freshly fetched diff text equals the stored one leaves
  the diff, the path hint and the viewport of the model as they are, whatever the
  status listing says; the whole model is unchanged. The same holds for any number of
  such ticks in a row.
\<close>

theorem tick_same_diff_frame:
  "(fst (getDiff w) = diff m \<longrightarrow>
      diff (fst (Update x w m (TickMsg t))) = diff m
      \<and> lastModified (fst (Update x w m (TickMsg t))) = lastModified m
      \<and> viewport (fst (Update x w m (TickMsg t))) = viewport m
      \<and> fst (Update x w m (TickMsg t)) = m)
   \<and> ((\<forall>(w, msg) \<in> set steps. isTick msg \<and> fst (getDiff w) = diff m) \<longrightarrow>
        run x m steps = m)"
  using ticks_same_run [of steps m x] by (simp add: Update_tick_same)

text \<open>
  The working tree is clean as far as \<^verbatim>\<open>git diff\<close> goes, but the status listing names a
  new file: the provider's hint is \<^verbatim>\<open>new.txt\<close>, and the model keeps its empty hint, after
  one such tick and after two.
\<close>

theorem tick_same_diff_frame_witness:
  "fst (getDiff (answer [] (''?? new.txt'' @ [nl]))) = diff demoModel
   \<and> snd (getDiff (answer [] (''?? new.txt'' @ [nl]))) = ''new.txt''
   \<and> lastModified (fst (Update plainWidgets (answer [] (''?? new.txt'' @ [nl])) demoModel
        (TickMsg 9))) = []
   \<and> fst (Update plainWidgets (answer [] (''?? new.txt'' @ [nl])) demoModel (TickMsg 9))
       = demoModel
   \<and> run plainWidgets demoModel
        [(answer [] (''?? new.txt'' @ [nl]), TickMsg 9),
         (answer [] (''?? new.txt'' @ [nl]), TickMsg 10)] = demoModel"
proof -
  let ?w = "answer [] (''?? new.txt'' @ [nl])"
  have same: "fst (getDiff ?w) = diff demoModel"
    by (simp add: getDiff_def answer_def demoModel_def initialModel_def)
  have hint: "snd (getDiff ?w) = ''new.txt''"
    by (simp add: getDiff_def answer_def statusHint_def trimSpace_def trimLeft.simps
        trimRight.simps leadingSpace_def trailingSpace_def asciiSpace_def unicodeSpaces_def
        hasPrefix_simps)
  have empty: "lastModified demoModel = []"
    by (simp add: demoModel_def initialModel_def)
  have ticks: "\<forall>(w, msg) \<in> set [(?w, TickMsg 9), (?w, TickMsg 10)].
      isTick msg \<and> fst (getDiff w) = diff demoModel"
    using same by simp
  note frame = tick_same_diff_frame
    [of ?w demoModel plainWidgets 9 "[(?w, TickMsg 9), (?w, TickMsg 10)]"]
  from frame same have one: "fst (Update plainWidgets ?w demoModel (TickMsg 9)) = demoModel"
    by blast
  from frame ticks
  have two: "run plainWidgets demoModel [(?w, TickMsg 9), (?w, TickMsg 10)] = demoModel"
    by blast
  from one empty
  have kept: "lastModified (fst (Update plainWidgets ?w demoModel (TickMsg 9))) = []"
    by simp
  from same hint kept one two show ?thesis by blast
qed

text \<open>
  Claim C1, as amended. A refresh triggered by a timer tick compares the provider's text
  with the stored diff text: when they are equal the model is unchanged, when they
  differ the text and the hint are stored and the view is rebuilt. So of two
  consecutive ticks on which the provider returns the same text, the second changes
  nothing: the two ticks update the diff at most once, exactly once when the text
  differs from the one stored before the first tick and not at all when it is equal.
\<close>

theorem refresh_compares_on_tick_only:
  "(fst (getDiff w) = diff m \<longrightarrow> Update x w m (TickMsg t) = (m, Tick))
   \<and> (fst (getDiff w) \<noteq> diff m \<longrightarrow>
        Update x w m (TickMsg t) =
          (updateDiffView x (m\<lparr>diff := fst (getDiff w), lastModified := snd (getDiff w)\<rparr>),
           Tick)
        \<and> fst (Update x w m (TickMsg t)) \<noteq> m)
   \<and> (fst (getDiff w') = fst (getDiff w) \<longrightarrow>
        fst (Update x w' (fst (Update x w m (TickMsg t))) (TickMsg t'))
          = fst (Update x w m (TickMsg t)))"
proof -
  have changed: "fst (Update x w m (TickMsg t)) \<noteq> m" if "fst (getDiff w) \<noteq> diff m"
  proof
    assume "fst (Update x w m (TickMsg t)) = m"
    then have "diff (fst (Update x w m (TickMsg t))) = diff m" by simp
    with that show False by (simp add: diff_after_tick)
  qed
  have second: "fst (Update x w' (fst (Update x w m (TickMsg t))) (TickMsg t'))
      = fst (Update x w m (TickMsg t))" if "fst (getDiff w') = fst (getDiff w)"
  proof -
    from that have "fst (getDiff w') = diff (fst (Update x w m (TickMsg t)))"
      by (simp add: diff_after_tick)
    then show ?thesis by (simp add: Update_tick_same)
  qed
  from changed second show ?thesis
    by (simp add: Update_tick_same Update_tick_changed)
qed

text \<open>
  Two ticks on which the provider returns \<^verbatim>\<open>D1\<close>, from the startup model: the first stores
  \<^verbatim>\<open>D1\<close>, the second leaves the model as the first left it. A tick on which the provider
  returns the stored (empty) text changes nothing.
\<close>

theorem refresh_compares_on_tick_only_witness:
  "fst (getDiff (answer ''D1'' [])) \<noteq> diff demoModel
   \<and> diff (fst (Update plainWidgets (answer ''D1'' []) demoModel (TickMsg 1))) = ''D1''
   \<and> fst (Update plainWidgets (answer ''D1'' []) demoModel (TickMsg 1)) \<noteq> demoModel
   \<and> fst (Update plainWidgets (answer ''D1'' [])
        (fst (Update plainWidgets (answer ''D1'' []) demoModel (TickMsg 1))) (TickMsg 2))
       = fst (Update plainWidgets (answer ''D1'' []) demoModel (TickMsg 1))
   \<and> fst (getDiff (answer [] [])) = diff demoModel
   \<and> Update plainWidgets (answer [] []) demoModel (TickMsg 1) = (demoModel, Tick)"
proof -
  have d1: "fst (getDiff (answer ''D1'' [])) = ''D1''" and d0: "fst (getDiff (answer [] [])) = []"
    by (simp_all add: getDiff_def answer_def)
  have m0: "diff demoModel = []"
    by (simp add: demoModel_def initialModel_def)
  have ne: "fst (getDiff (answer ''D1'' [])) \<noteq> diff demoModel"
    using d1 m0 by simp
  have same: "fst (getDiff (answer [] [])) = diff demoModel"
    using d0 m0 by simp
  have stored: "diff (fst (Update plainWidgets (answer ''D1'' []) demoModel (TickMsg 1))) = ''D1''"
    by (simp add: diff_after_tick d1)
  note first = refresh_compares_on_tick_only
    [of "answer ''D1'' []" demoModel plainWidgets 1 "answer ''D1'' []" 2]
  from first ne
  have changed: "fst (Update plainWidgets (answer ''D1'' []) demoModel (TickMsg 1)) \<noteq> demoModel"
    by blast
  from first
  have second: "fst (Update plainWidgets (answer ''D1'' [])
        (fst (Update plainWidgets (answer ''D1'' []) demoModel (TickMsg 1))) (TickMsg 2))
       = fst (Update plainWidgets (answer ''D1'' []) demoModel (TickMsg 1))"
    by blast
  from refresh_compares_on_tick_only [of "answer [] []" demoModel plainWidgets 1] same
  have unchanged: "Update plainWidgets (answer [] []) demoModel (TickMsg 1) = (demoModel, Tick)"
    by blast
  from ne stored changed second same unchanged show ?thesis
    by blast
qed

text \<open>
  Claim C1 as stated fails in two ways. A refresh triggered by a file event makes no
  comparison: the stored diff text is \<^verbatim>\<open>D1\<close> and the provider returns \<^verbatim>\<open>D1\<close>, yet the
  update message is emitted, and two consecutive file events with the same provider
  text yield two update messages. And two consecutive ticks on which the provider
  returns the text that is already stored update nothing, rather than exactly once.
\<close>

theorem file_event_refresh_not_suppressed:
  "fst (getDiff (answer ''D1'' [])) = diff (demoModel\<lparr>diff := ''D1''\<rparr>)
   \<and> snd (Update plainWidgets (answer ''D1'' []) (demoModel\<lparr>diff := ''D1''\<rparr>)
        (FileEventMsg \<lparr>Time = 1, Event = ''modified'', File = ''a''\<rparr>))
       = Deliver (DiffUpdateMsg ''D1'' [])
   \<and> commands plainWidgets (demoModel\<lparr>diff := ''D1''\<rparr>)
        [(answer ''D1'' [], FileEventMsg \<lparr>Time = 1, Event = ''modified'', File = ''a''\<rparr>),
         (answer ''D1'' [], FileEventMsg \<lparr>Time = 2, Event = ''modified'', File = ''a''\<rparr>)]
       = [Deliver (DiffUpdateMsg ''D1'' []), Deliver (DiffUpdateMsg ''D1'' [])]
   \<and> run plainWidgets (demoModel\<lparr>diff := ''D1''\<rparr>)
        [(answer ''D1'' [], TickMsg 1), (answer ''D1'' [], TickMsg 2)]
       = demoModel\<lparr>diff := ''D1''\<rparr>
   \<and> commands plainWidgets (demoModel\<lparr>diff := ''D1''\<rparr>)
        [(answer ''D1'' [], TickMsg 1), (answer ''D1'' [], TickMsg 2)]
       = [Tick, Tick]"
proof -
  have same: "fst (getDiff (answer ''D1'' [])) = diff (demoModel\<lparr>diff := ''D1''\<rparr>)"
    by (simp add: getDiff_def answer_def)
  have hint: "snd (getDiff (answer ''D1'' [])) = []"
    by (simp add: getDiff_def answer_def statusHint_def)
  from same hint show ?thesis
    by (simp add: Update_fileEvent_cmd Update_tick_same)
qed

subsection \<open>Provider failure\<close>

text \<open>
  Claim C8. When the invocation of \<^verbatim>\<open>git diff\<close> fails, \<^verbatim>\<open>getDiff\<close> returns the text
  \<^verbatim>\<open>Error getting diff: \<close> followed by the text of the error as the diff content, with an
  empty hint. The state machine carries on: a tick stores the diagnostic as the diff
  and arms the timer again; a file event is recorded and the diagnostic is sent on in a
  \<^verbatim>\<open>diffUpdateMsg\<close>, which stores it when it is processed; and the next tick asks the
  provider again and stores what it answers then.
\<close>

theorem provider_failure_is_diagnostic:
  "diffResult w = Inl err \<Longrightarrow>
     getDiff w = (''Error getting diff: '' @ err, [])
     \<and> diff (fst (Update x w m (TickMsg t))) = ''Error getting diff: '' @ err
     \<and> snd (Update x w m (TickMsg t)) = Tick
     \<and> Update x w m (FileEventMsg e) =
         (updateTable x (m\<lparr>events := appendEvent e (events m)\<rparr>),
          Deliver (DiffUpdateMsg (''Error getting diff: '' @ err) []))
     \<and> diff (fst (Update x w' m' (DiffUpdateMsg (''Error getting diff: '' @ err) [])))
         = ''Error getting diff: '' @ err
     \<and> diff (fst (Update x w' (fst (Update x w m (TickMsg t))) (TickMsg t')))
         = fst (getDiff w')"
proof -
  assume failed: "diffResult w = Inl err"
  then have answer: "getDiff w = (''Error getting diff: '' @ err, [])"
    by (simp add: getDiff_def)
  have tick: "snd (Update x w m (TickMsg t)) = Tick"
    by (simp add: Update_def split_beta)
  have event: "Update x w m (FileEventMsg e) =
         (updateTable x (m\<lparr>events := appendEvent e (events m)\<rparr>),
          Deliver (DiffUpdateMsg (''Error getting diff: '' @ err) []))"
    by (simp add: Update_def answer)
  have delivered:
    "diff (fst (Update x w' m' (DiffUpdateMsg (''Error getting diff: '' @ err) [])))
       = ''Error getting diff: '' @ err"
    by (simp add: Update_def)
  from answer tick event delivered show ?thesis
    by (simp add: diff_after_tick)
qed

text \<open>
  \<^verbatim>\<open>git diff\<close> fails outside a repository; on the next tick it succeeds and its output
  replaces the diagnostic.
\<close>

theorem provider_failure_is_diagnostic_witness:
  "diffResult \<lparr>diffResult = Inl ''exit status 129'', statusOutput = []\<rparr> = Inl ''exit status 129''
   \<and> getDiff \<lparr>diffResult = Inl ''exit status 129'', statusOutput = []\<rparr>
       = (''Error getting diff: exit status 129'', [])
   \<and> diff (fst (Update plainWidgets \<lparr>diffResult = Inl ''exit status 129'', statusOutput = []\<rparr>
        demoModel (TickMsg 1))) = ''Error getting diff: exit status 129''
   \<and> snd (Update plainWidgets \<lparr>diffResult = Inl ''exit status 129'', statusOutput = []\<rparr>
        demoModel (TickMsg 1)) = Tick
   \<and> diff (fst (Update plainWidgets (answer ''D'' [])
        (fst (Update plainWidgets \<lparr>diffResult = Inl ''exit status 129'', statusOutput = []\<rparr>
           demoModel (TickMsg 1))) (TickMsg 2))) = ''D''"
proof -
  let ?w = "\<lparr>diffResult = Inl ''exit status 129'', statusOutput = []\<rparr>"
  have failed: "diffResult ?w = Inl ''exit status 129''" by simp
  have "fst (getDiff (answer ''D'' [])) = ''D''"
    by (simp add: getDiff_def answer_def)
  with provider_failure_is_diagnostic
    [OF failed, of plainWidgets demoModel 1 _ "answer ''D'' []" _ 2]
  show ?thesis by simp
qed

subsection \<open>Determinism of the state machine\<close>

text \<open>
  Claim C2, as amended. The next model is a function of the current model, the message
  and, for a timer tick, of what the diff provider answers when the tick is processed.
  Two runs from the same model over the same messages in the same order end in the
  same model when the provider's answers agree at the ticks; a run without ticks is
  determined by the model and the messages alone.
\<close>

theorem run_determined_by_messages_and_answers:
  "list_all2 (\<lambda>(w, msg) (w', msg'). msg' = msg \<and> (isTick msg \<longrightarrow> getDiff w' = getDiff w))
      steps steps'
     \<Longrightarrow> run x m steps = run x m steps'"
proof (induction steps steps' arbitrary: m rule: list_all2_induct)
  case Nil
  show ?case by simp
next
  case (Cons s steps s' steps')
  obtain w msg where s: "s = (w, msg)" by (cases s)
  obtain w' msg' where s': "s' = (w', msg')" by (cases s')
  from Cons.hyps(1) s s'
  have msg: "msg' = msg" and tick: "isTick msg \<Longrightarrow> getDiff w' = getDiff w"
    by simp_all
  have "fst (Update x w m msg) = fst (Update x w' m msg)"
  proof (cases "isTick msg")
    case True
    then show ?thesis using tick Update_same_answer [of w' w x m msg] by simp
  next
    case False
    then show ?thesis by (rule Update_model_no_tick)
  qed
  with Cons.IH s s' msg show ?case by simp
qed

text \<open>
  Two runs over a file event, a tick and a key: the provider answers differently at the
  file event and at the key, and the same at the tick; both runs end in the same model.
\<close>

theorem run_determined_by_messages_and_answers_witness:
  "list_all2 (\<lambda>(w, msg) (w', msg'). msg' = msg \<and> (isTick msg \<longrightarrow> getDiff w' = getDiff w))
      [(answer ''D1'' [], FileEventMsg \<lparr>Time = 1, Event = ''created'', File = ''a''\<rparr>),
       (answer ''D2'' [], TickMsg 2),
       (answer ''D3'' [], KeyMsg ''j'')]
      [(answer ''other'' [], FileEventMsg \<lparr>Time = 1, Event = ''created'', File = ''a''\<rparr>),
       (answer ''D2'' [], TickMsg 2),
       (\<lparr>diffResult = Inl ''failed'', statusOutput = []\<rparr>, KeyMsg ''j'')]
   \<and> run plainWidgets demoModel
      [(answer ''D1'' [], FileEventMsg \<lparr>Time = 1, Event = ''created'', File = ''a''\<rparr>),
       (answer ''D2'' [], TickMsg 2),
       (answer ''D3'' [], KeyMsg ''j'')]
     = run plainWidgets demoModel
      [(answer ''other'' [], FileEventMsg \<lparr>Time = 1, Event = ''created'', File = ''a''\<rparr>),
       (answer ''D2'' [], TickMsg 2),
       (\<lparr>diffResult = Inl ''failed'', statusOutput = []\<rparr>, KeyMsg ''j'')]"
proof -
  have agree:
    "list_all2 (\<lambda>(w, msg) (w', msg'). msg' = msg \<and> (isTick msg \<longrightarrow> getDiff w' = getDiff w))
      [(answer ''D1'' [], FileEventMsg \<lparr>Time = 1, Event = ''created'', File = ''a''\<rparr>),
       (answer ''D2'' [], TickMsg 2),
       (answer ''D3'' [], KeyMsg ''j'')]
      [(answer ''other'' [], FileEventMsg \<lparr>Time = 1, Event = ''created'', File = ''a''\<rparr>),
       (answer ''D2'' [], TickMsg 2),
       (\<lparr>diffResult = Inl ''failed'', statusOutput = []\<rparr>, KeyMsg ''j'')]"
    by simp
  from agree run_determined_by_messages_and_answers [OF agree, of plainWidgets demoModel]
  show ?thesis by (rule conjI)
qed

text \<open>
  Claim C2 as stated fails: from the same model, the same message (a timer tick) leads
  to different models when the provider answers differently.
\<close>

theorem tick_depends_on_provider:
  "fst (Update plainWidgets (answer ''D1'' []) demoModel (TickMsg 0))
     \<noteq> fst (Update plainWidgets (answer ''D2'' []) demoModel (TickMsg 0))
   \<and> run plainWidgets demoModel [(answer ''D1'' [], TickMsg 0)]
     \<noteq> run plainWidgets demoModel [(answer ''D2'' [], TickMsg 0)]"
proof -
  have "diff (fst (Update plainWidgets (answer ''D1'' []) demoModel (TickMsg 0))) = ''D1''"
    by (simp add: diff_after_tick getDiff_def answer_def)
  moreover
  have "diff (fst (Update plainWidgets (answer ''D2'' []) demoModel (TickMsg 0))) = ''D2''"
    by (simp add: diff_after_tick getDiff_def answer_def)
  ultimately
  have "fst (Update plainWidgets (answer ''D1'' []) demoModel (TickMsg 0))
     \<noteq> fst (Update plainWidgets (answer ''D2'' []) demoModel (TickMsg 0))"
    by auto
  then show ?thesis by simp
qed

subsection \<open>The directory observer\<close>



end
